theory Spec2Isabelle
  imports Complex_Main
begin

section \<open>Python numbers and exceptions\<close>

text \<open>
  The accountant in \<^verbatim>\<open>compute_rdp.py\<close> works on Python numbers. The source produces
  and tests the special values itself (\<^verbatim>\<open>-np.inf\<close>, \<^verbatim>\<open>np.inf\<close>, \<^verbatim>\<open>np.isinf\<close>), so they
  are values of the model: a number is a real, one of the two infinities, or NaN.
  Python's \<^verbatim>\<open>int\<close> and \<^verbatim>\<open>float\<close> are not told apart, the sign of zero is not kept, and
  finite arithmetic is exact: rounding, underflow and the silent overflow of \<^verbatim>\<open>+\<close>, \<^verbatim>\<open>*\<close>
  and \<^verbatim>\<open>/\<close> to an infinity are left out. Every exception that Python raises is a
  branch of the model: \<^verbatim>\<open>ZeroDivisionError\<close> for a zero divisor and for zero to a
  negative power, \<^verbatim>\<open>ValueError\<close> outside the domain of a \<^verbatim>\<open>math\<close> function, and
  \<^verbatim>\<open>OverflowError\<close> where a finite result of \<^verbatim>\<open>**\<close>, \<^verbatim>\<open>math.exp\<close> or \<^verbatim>\<open>math.expm1\<close>
  lies above the largest double.
\<close>

datatype pyfloat = Fin real | PInf | NInf | NaN

datatype py_error = ValueError | ZeroDivisionError | OverflowError | TypeError

text \<open>An exception leaves the enclosing computation at once.\<close>

definition ebind :: "'e + 'a \<Rightarrow> ('a \<Rightarrow> 'e + 'b) \<Rightarrow> 'e + 'b" where
  "ebind m f = (case m of Inl e \<Rightarrow> Inl e | Inr v \<Rightarrow> f v)"

subsection \<open>Comparisons\<close>

text \<open>Every ordering comparison with NaN is false, and NaN is not equal to itself.\<close>

fun py_lt :: "pyfloat \<Rightarrow> pyfloat \<Rightarrow> bool" where
  "py_lt (Fin a) (Fin b) = (a < b)"
| "py_lt (Fin a) PInf = True"
| "py_lt (Fin a) NInf = False"
| "py_lt (Fin a) NaN = False"
| "py_lt PInf y = False"
| "py_lt NInf (Fin b) = True"
| "py_lt NInf PInf = True"
| "py_lt NInf NInf = False"
| "py_lt NInf NaN = False"
| "py_lt NaN y = False"

definition py_gt :: "pyfloat \<Rightarrow> pyfloat \<Rightarrow> bool" where
  "py_gt x y = py_lt y x"

definition py_eq :: "pyfloat \<Rightarrow> pyfloat \<Rightarrow> bool" where
  "py_eq x y = (x = y \<and> x \<noteq> NaN)"

text \<open>
  The builtins \<^verbatim>\<open>min(x, y)\<close> and \<^verbatim>\<open>max(x, y)\<close> keep the first argument unless the
  second is strictly smaller (strictly greater).
\<close>

definition py_min :: "pyfloat \<Rightarrow> pyfloat \<Rightarrow> pyfloat" where
  "py_min x y = (if py_lt y x then y else x)"

definition py_max :: "pyfloat \<Rightarrow> pyfloat \<Rightarrow> pyfloat" where
  "py_max x y = (if py_gt y x then y else x)"

definition np_isinf :: "pyfloat \<Rightarrow> bool" where
  "np_isinf x = (x = PInf \<or> x = NInf)"

subsection \<open>Arithmetic operators\<close>

fun py_neg :: "pyfloat \<Rightarrow> pyfloat" where
  "py_neg (Fin a) = Fin (- a)"
| "py_neg PInf = NInf"
| "py_neg NInf = PInf"
| "py_neg NaN = NaN"

fun py_abs :: "pyfloat \<Rightarrow> pyfloat" where
  "py_abs (Fin a) = Fin \<bar>a\<bar>"
| "py_abs PInf = PInf"
| "py_abs NInf = PInf"
| "py_abs NaN = NaN"

fun py_add :: "pyfloat \<Rightarrow> pyfloat \<Rightarrow> pyfloat" where
  "py_add (Fin a) (Fin b) = Fin (a + b)"
| "py_add (Fin a) PInf = PInf"
| "py_add (Fin a) NInf = NInf"
| "py_add (Fin a) NaN = NaN"
| "py_add PInf (Fin b) = PInf"
| "py_add PInf PInf = PInf"
| "py_add PInf NInf = NaN"
| "py_add PInf NaN = NaN"
| "py_add NInf (Fin b) = NInf"
| "py_add NInf PInf = NaN"
| "py_add NInf NInf = NInf"
| "py_add NInf NaN = NaN"
| "py_add NaN y = NaN"

definition py_sub :: "pyfloat \<Rightarrow> pyfloat \<Rightarrow> pyfloat" where
  "py_sub x y = py_add x (py_neg y)"

text \<open>The sign of an infinite product; infinity times zero is NaN.\<close>

definition signed_inf :: "real \<Rightarrow> pyfloat" where
  "signed_inf s = (if s = 0 then NaN else if 0 < s then PInf else NInf)"

fun py_mul :: "pyfloat \<Rightarrow> pyfloat \<Rightarrow> pyfloat" where
  "py_mul (Fin a) (Fin b) = Fin (a * b)"
| "py_mul (Fin a) PInf = signed_inf a"
| "py_mul (Fin a) NInf = signed_inf (- a)"
| "py_mul (Fin a) NaN = NaN"
| "py_mul PInf (Fin b) = signed_inf b"
| "py_mul PInf PInf = PInf"
| "py_mul PInf NInf = NInf"
| "py_mul PInf NaN = NaN"
| "py_mul NInf (Fin b) = signed_inf (- b)"
| "py_mul NInf PInf = NInf"
| "py_mul NInf NInf = PInf"
| "py_mul NInf NaN = NaN"
| "py_mul NaN y = NaN"

text \<open>
  True division of Python numbers: a zero divisor raises \<^verbatim>\<open>ZeroDivisionError\<close>
  whatever the dividend is.
\<close>

fun py_div :: "pyfloat \<Rightarrow> pyfloat \<Rightarrow> py_error + pyfloat" where
  "py_div (Fin a) (Fin b) = (if b = 0 then Inl ZeroDivisionError else Inr (Fin (a / b)))"
| "py_div (Fin a) PInf = Inr (Fin 0)"
| "py_div (Fin a) NInf = Inr (Fin 0)"
| "py_div (Fin a) NaN = Inr NaN"
| "py_div PInf (Fin b) =
     (if b = 0 then Inl ZeroDivisionError else Inr (signed_inf b))"
| "py_div PInf PInf = Inr NaN"
| "py_div PInf NInf = Inr NaN"
| "py_div PInf NaN = Inr NaN"
| "py_div NInf (Fin b) =
     (if b = 0 then Inl ZeroDivisionError else Inr (signed_inf (- b)))"
| "py_div NInf PInf = Inr NaN"
| "py_div NInf NInf = Inr NaN"
| "py_div NInf NaN = Inr NaN"
| "py_div NaN (Fin b) = (if b = 0 then Inl ZeroDivisionError else Inr NaN)"
| "py_div NaN PInf = Inr NaN"
| "py_div NaN NInf = Inr NaN"
| "py_div NaN NaN = Inr NaN"

text \<open>The largest double, \<^verbatim>\<open>(2**53 - 1) * 2**971\<close>.\<close>

definition dbl_max :: real where
  "dbl_max = (2 ^ 53 - 1) * 2 ^ 971"

text \<open>
  A finite result of \<^verbatim>\<open>**\<close>: \<^verbatim>\<open>OverflowError\<close> when it lies outside the double range.
\<close>

definition finite_result :: "real \<Rightarrow> py_error + pyfloat" where
  "finite_result r = (if dbl_max < \<bar>r\<bar> then Inl OverflowError else Inr (Fin r))"

text \<open>
  The power operator \<^verbatim>\<open>x ** y\<close>, case by case as CPython's \<^verbatim>\<open>float_pow\<close> decides
  them: a zero exponent gives one for every base; the cases of NaN and of the
  infinities come next and never raise; zero to a negative power raises
  \<^verbatim>\<open>ZeroDivisionError\<close>; a finite result outside the double range raises
  \<^verbatim>\<open>OverflowError\<close>; a negative base with a fractional exponent gives a complex
  number (\<^verbatim>\<open>OverflowError\<close> when its modulus is out of range), which the source's
  \<^verbatim>\<open>float(...)\<close> around every such power refuses with \<^verbatim>\<open>TypeError\<close>.
\<close>

definition is_integer :: "real \<Rightarrow> bool" where
  "is_integer a = (a = of_int \<lfloor>a\<rfloor>)"

definition is_odd_integer :: "real \<Rightarrow> bool" where
  "is_odd_integer a = (is_integer a \<and> odd \<lfloor>a\<rfloor>)"

fun py_pow :: "pyfloat \<Rightarrow> pyfloat \<Rightarrow> py_error + pyfloat" where
  "py_pow (Fin b) (Fin e) =
     (if e = 0 then Inr (Fin 1)
      else if b = 0 then (if e < 0 then Inl ZeroDivisionError else Inr (Fin 0))
      else if is_integer e then finite_result (b powi \<lfloor>e\<rfloor>)
      else if b < 0 then
        (if dbl_max < \<bar>b\<bar> powr e then Inl OverflowError else Inl TypeError)
      else finite_result (b powr e))"
| "py_pow (Fin b) PInf =
     (if \<bar>b\<bar> = 1 then Inr (Fin 1) else if 1 < \<bar>b\<bar> then Inr PInf else Inr (Fin 0))"
| "py_pow (Fin b) NInf =
     (if \<bar>b\<bar> = 1 then Inr (Fin 1) else if 1 < \<bar>b\<bar> then Inr (Fin 0) else Inr PInf)"
| "py_pow (Fin b) NaN = (if b = 1 then Inr (Fin 1) else Inr NaN)"
| "py_pow PInf (Fin e) =
     (if e = 0 then Inr (Fin 1) else if 0 < e then Inr PInf else Inr (Fin 0))"
| "py_pow PInf PInf = Inr PInf"
| "py_pow PInf NInf = Inr (Fin 0)"
| "py_pow PInf NaN = Inr NaN"
| "py_pow NInf (Fin e) =
     (if e = 0 then Inr (Fin 1)
      else if 0 < e then (if is_odd_integer e then Inr NInf else Inr PInf)
      else Inr (Fin 0))"
| "py_pow NInf PInf = Inr PInf"
| "py_pow NInf NInf = Inr (Fin 0)"
| "py_pow NInf NaN = Inr NaN"
| "py_pow NaN (Fin e) = (if e = 0 then Inr (Fin 1) else Inr NaN)"
| "py_pow NaN PInf = Inr NaN"
| "py_pow NaN NInf = Inr NaN"
| "py_pow NaN NaN = Inr NaN"

subsection \<open>The \<^verbatim>\<open>math\<close> module\<close>

fun math_log :: "pyfloat \<Rightarrow> py_error + pyfloat" where
  "math_log (Fin x) = (if 0 < x then Inr (Fin (ln x)) else Inl ValueError)"
| "math_log PInf = Inr PInf"
| "math_log NInf = Inl ValueError"
| "math_log NaN = Inr NaN"

fun math_log1p :: "pyfloat \<Rightarrow> py_error + pyfloat" where
  "math_log1p (Fin x) = (if - 1 < x then Inr (Fin (ln (1 + x))) else Inl ValueError)"
| "math_log1p PInf = Inr PInf"
| "math_log1p NInf = Inl ValueError"
| "math_log1p NaN = Inr NaN"

fun math_exp :: "pyfloat \<Rightarrow> py_error + pyfloat" where
  "math_exp (Fin x) = (if dbl_max < exp x then Inl OverflowError else Inr (Fin (exp x)))"
| "math_exp PInf = Inr PInf"
| "math_exp NInf = Inr (Fin 0)"
| "math_exp NaN = Inr NaN"

fun math_sqrt :: "pyfloat \<Rightarrow> py_error + pyfloat" where
  "math_sqrt (Fin x) = (if x < 0 then Inl ValueError else Inr (Fin (sqrt x)))"
| "math_sqrt PInf = Inr PInf"
| "math_sqrt NInf = Inl ValueError"
| "math_sqrt NaN = Inr NaN"

fun math_expm1 :: "pyfloat \<Rightarrow> py_error + pyfloat" where
  "math_expm1 (Fin x) =
     (if dbl_max < exp x - 1 then Inl OverflowError else Inr (Fin (exp x - 1)))"
| "math_expm1 PInf = Inr PInf"
| "math_expm1 NInf = Inr (Fin (- 1))"
| "math_expm1 NaN = Inr NaN"

section \<open>Arithmetic in log space\<close>

text \<open>
  \<^verbatim>\<open>_log_add(logx, logy)\<close>: the operands are ordered with \<^verbatim>\<open>min\<close> and \<^verbatim>\<open>max\<close>, the
  larger one is returned when the smaller is \<^verbatim>\<open>-inf\<close>, and otherwise the result is
  \<^verbatim>\<open>math.log1p(math.exp(a - b)) + b\<close>.
\<close>

definition u_log_add :: "pyfloat \<Rightarrow> pyfloat \<Rightarrow> py_error + pyfloat" where
  "u_log_add logx logy =
     (let a = py_min logx logy; b = py_max logx logy in
      if py_eq a NInf then Inr b
      else ebind (math_exp (py_sub a b)) (\<lambda>e.
           ebind (math_log1p e) (\<lambda>l.
           Inr (py_add l b))))"

text \<open>
  \<^verbatim>\<open>_log_sub(logx, logy)\<close>: raises \<^verbatim>\<open>ValueError\<close> when \<^verbatim>\<open>logx < logy\<close>; the
  \<^verbatim>\<open>try\<close> block turns an \<^verbatim>\<open>OverflowError\<close>, and no other exception, into the
  result \<^verbatim>\<open>logx\<close>.
\<close>

definition u_log_sub :: "pyfloat \<Rightarrow> pyfloat \<Rightarrow> py_error + pyfloat" where
  "u_log_sub logx logy =
     (if py_lt logx logy then Inl ValueError
      else if py_eq logy NInf then Inr logx
      else if py_eq logx logy then Inr NInf
      else (case ebind (math_expm1 (py_sub logx logy)) (\<lambda>e.
                 ebind (math_log e) (\<lambda>l.
                 Inr (py_add l logy))) of
              Inl OverflowError \<Rightarrow> Inr logx
            | r \<Rightarrow> r))"

section \<open>The library functions of \<^verbatim>\<open>scipy.special\<close>\<close>

text \<open>
  \<^verbatim>\<open>special.binom(x, i)\<close> is only called with a loop counter \<open>i\<close>, a natural number,
  where it is the generalised binomial coefficient of a finite \<open>x\<close>. A NaN argument
  gives NaN; an infinite one is never passed (\<^verbatim>\<open>_compute_rdp\<close> returns before).
\<close>

fun special_binom :: "pyfloat \<Rightarrow> nat \<Rightarrow> pyfloat" where
  "special_binom (Fin x) i = Fin (x gchoose i)"
| "special_binom PInf i = NaN"
| "special_binom NInf i = NaN"
| "special_binom NaN i = NaN"

text \<open>
  \<^verbatim>\<open>special.log_ndtr\<close> is the logarithm of the standard normal distribution function.
  The function on the reals is a parameter \<open>ln_Phi\<close> of the model; at the special
  values it is \<open>log 1\<close>, \<open>log 0\<close> and NaN.
\<close>

fun special_log_ndtr :: "(real \<Rightarrow> real) \<Rightarrow> pyfloat \<Rightarrow> pyfloat" where
  "special_log_ndtr ln_Phi (Fin x) = Fin (ln_Phi x)"
| "special_log_ndtr ln_Phi PInf = Fin 0"
| "special_log_ndtr ln_Phi NInf = NInf"
| "special_log_ndtr ln_Phi NaN = NaN"

text \<open>\<^verbatim>\<open>_log_erfc(x) = math.log(2) + special.log_ndtr(-x * 2 ** 0.5)\<close>\<close>

definition u_log_erfc :: "(real \<Rightarrow> real) \<Rightarrow> pyfloat \<Rightarrow> py_error + pyfloat" where
  "u_log_erfc ln_Phi x =
     ebind (math_log (Fin 2)) (\<lambda>l2.
     ebind (py_pow (Fin 2) (Fin (1 / 2))) (\<lambda>r.
     Inr (py_add l2 (special_log_ndtr ln_Phi (py_mul (py_neg x) r)))))"

section \<open>The Gaussian mechanism at one order\<close>

text \<open>
  Three expressions occur in both paths and are named here:
  \<^verbatim>\<open>c + a * math.log(q) + b * math.log(1 - q)\<close>,
  \<^verbatim>\<open>(k * k - k) / (2 * (sigma ** 2))\<close> and
  \<^verbatim>\<open>math.log(0.5) + _log_erfc(x / (math.sqrt(2) * sigma))\<close>.
  Each evaluates its operands from left to right, so the first exception is the
  source's.
\<close>

definition log_term :: "pyfloat \<Rightarrow> pyfloat \<Rightarrow> pyfloat \<Rightarrow> pyfloat \<Rightarrow> py_error + pyfloat" where
  "log_term c a b q =
     ebind (math_log q) (\<lambda>lq.
     ebind (math_log (py_sub (Fin 1) q)) (\<lambda>lp.
     Inr (py_add (py_add c (py_mul a lq)) (py_mul b lp))))"

definition quad_term :: "pyfloat \<Rightarrow> pyfloat \<Rightarrow> py_error + pyfloat" where
  "quad_term k sigma =
     ebind (py_pow sigma (Fin 2)) (\<lambda>s2.
     py_div (py_sub (py_mul k k) k) (py_mul (Fin 2) s2))"

definition tail_term :: "(real \<Rightarrow> real) \<Rightarrow> pyfloat \<Rightarrow> pyfloat \<Rightarrow> py_error + pyfloat" where
  "tail_term ln_Phi x sigma =
     ebind (math_log (Fin (1 / 2))) (\<lambda>lh.
     ebind (math_sqrt (Fin 2)) (\<lambda>r.
     ebind (py_div x (py_mul r sigma)) (\<lambda>y.
     ebind (u_log_erfc ln_Phi y) (\<lambda>le.
     Inr (py_add lh le)))))"

subsection \<open>Integer orders\<close>

text \<open>
  One round of the \<^verbatim>\<open>for i in range(alpha + 1)\<close> loop of
  \<^verbatim>\<open>_compute_log_a_for_int_alpha\<close>, from the accumulator \<open>rdp\<close> to its next value.
\<close>

definition int_step :: "pyfloat \<Rightarrow> pyfloat \<Rightarrow> int \<Rightarrow> pyfloat \<Rightarrow> nat \<Rightarrow> py_error + pyfloat" where
  "int_step q sigma alpha rdp i =
     ebind (math_log (special_binom (Fin (of_int alpha)) i)) (\<lambda>lc.
     ebind (log_term lc (Fin (of_nat i)) (Fin (of_int (alpha - int i))) q) (\<lambda>lt.
     ebind (quad_term (Fin (of_nat i)) sigma) (\<lambda>qt.
     let log_b = py_add lt qt;
         a = py_min rdp log_b;
         b = py_max rdp log_b
     in if py_eq a NInf then Inr b
        else ebind (math_exp (py_sub a b)) (\<lambda>e.
             ebind (math_log (py_add e (Fin 1))) (\<lambda>l.
             Inr (py_add l b))))))"

fun int_loop :: "pyfloat \<Rightarrow> pyfloat \<Rightarrow> int \<Rightarrow> pyfloat \<Rightarrow> nat list \<Rightarrow> py_error + pyfloat" where
  "int_loop q sigma alpha rdp [] = Inr rdp"
| "int_loop q sigma alpha rdp (i # is) =
     ebind (int_step q sigma alpha rdp i) (\<lambda>rdp'. int_loop q sigma alpha rdp' is)"

definition u_compute_log_a_for_int_alpha :: "pyfloat \<Rightarrow> pyfloat \<Rightarrow> int \<Rightarrow> py_error + pyfloat" where
  "u_compute_log_a_for_int_alpha q sigma alpha =
     ebind (int_loop q sigma alpha NInf [0 ..< nat (alpha + 1)]) (\<lambda>rdp.
     py_div rdp (Fin (of_int (alpha - 1))))"

subsection \<open>Fractional orders\<close>

text \<open>\<^verbatim>\<open>z0 = sigma ** 2 * math.log(1 / q - 1) + 0.5\<close>\<close>

definition frac_z0 :: "pyfloat \<Rightarrow> pyfloat \<Rightarrow> py_error + pyfloat" where
  "frac_z0 q sigma =
     ebind (py_pow sigma (Fin 2)) (\<lambda>s2.
     ebind (py_div (Fin 1) q) (\<lambda>r.
     ebind (math_log (py_sub r (Fin 1))) (\<lambda>l.
     Inr (py_add (py_mul s2 l) (Fin (1 / 2))))))"

text \<open>
  The first half of the loop body at index \<open>i\<close>: the coefficient and the two series
  terms \<^verbatim>\<open>log_s0\<close> and \<^verbatim>\<open>log_s1\<close>.
\<close>

definition frac_terms ::
  "(real \<Rightarrow> real) \<Rightarrow> pyfloat \<Rightarrow> pyfloat \<Rightarrow> pyfloat \<Rightarrow> pyfloat \<Rightarrow> nat
    \<Rightarrow> py_error + (pyfloat \<times> pyfloat \<times> pyfloat)" where
  "frac_terms ln_Phi q sigma alpha z0 i =
     (let coef = special_binom alpha i in
      ebind (math_log (py_abs coef)) (\<lambda>log_coef.
      let j = py_sub alpha (Fin (of_nat i)) in
      ebind (log_term log_coef (Fin (of_nat i)) j q) (\<lambda>log_t0.
      ebind (log_term log_coef j (Fin (of_nat i)) q) (\<lambda>log_t1.
      ebind (tail_term ln_Phi (py_sub (Fin (of_nat i)) z0) sigma) (\<lambda>log_e0.
      ebind (tail_term ln_Phi (py_sub z0 j) sigma) (\<lambda>log_e1.
      ebind (quad_term (Fin (of_nat i)) sigma) (\<lambda>q0.
      let log_s0 = py_add (py_add log_t0 q0) log_e0 in
      ebind (quad_term j sigma) (\<lambda>q1.
      let log_s1 = py_add (py_add log_t1 q1) log_e1 in
      Inr (coef, log_s0, log_s1)))))))))"

text \<open>
  The second half: \<^verbatim>\<open>if coef > 0\<close> both accumulators take \<^verbatim>\<open>_log_add\<close>, \<^verbatim>\<open>else\<close>
  both take \<^verbatim>\<open>_log_sub\<close>.
\<close>

definition frac_accumulate ::
  "pyfloat \<Rightarrow> pyfloat \<Rightarrow> pyfloat \<Rightarrow> pyfloat \<Rightarrow> pyfloat \<Rightarrow> py_error + (pyfloat \<times> pyfloat)" where
  "frac_accumulate coef log_a0 log_a1 log_s0 log_s1 =
     (if py_gt coef (Fin 0) then
        ebind (u_log_add log_a0 log_s0) (\<lambda>a0.
        ebind (u_log_add log_a1 log_s1) (\<lambda>a1.
        Inr (a0, a1)))
      else
        ebind (u_log_sub log_a0 log_s0) (\<lambda>a0.
        ebind (u_log_sub log_a1 log_s1) (\<lambda>a1.
        Inr (a0, a1))))"

text \<open>The test that ends the loop: \<^verbatim>\<open>max(log_s0, log_s1) < -30\<close>.\<close>

definition converged :: "pyfloat \<Rightarrow> pyfloat \<Rightarrow> bool" where
  "converged log_s0 log_s1 = py_lt (py_max log_s0 log_s1) (Fin (- 30))"

text \<open>
  One round of the \<^verbatim>\<open>while True\<close> loop: the new accumulators and whether the loop
  breaks after this round.
\<close>

definition frac_body ::
  "(real \<Rightarrow> real) \<Rightarrow> pyfloat \<Rightarrow> pyfloat \<Rightarrow> pyfloat \<Rightarrow> pyfloat \<Rightarrow> nat \<Rightarrow> pyfloat \<Rightarrow> pyfloat
    \<Rightarrow> py_error + (pyfloat \<times> pyfloat \<times> bool)" where
  "frac_body ln_Phi q sigma alpha z0 i log_a0 log_a1 =
     ebind (frac_terms ln_Phi q sigma alpha z0 i) (\<lambda>(coef, log_s0, log_s1).
     ebind (frac_accumulate coef log_a0 log_a1 log_s0 log_s1) (\<lambda>(a0, a1).
     Inr (a0, a1, converged log_s0 log_s1)))"

text \<open>
  The loop has no bound in the source. A run that never breaks has no result: the
  value \<open>None\<close>.
\<close>

partial_function (option) frac_loop ::
  "(real \<Rightarrow> real) \<Rightarrow> pyfloat \<Rightarrow> pyfloat \<Rightarrow> pyfloat \<Rightarrow> pyfloat \<Rightarrow> nat \<Rightarrow> pyfloat \<Rightarrow> pyfloat
    \<Rightarrow> (py_error + (pyfloat \<times> pyfloat)) option" where
  "frac_loop ln_Phi q sigma alpha z0 i log_a0 log_a1 =
     (case frac_body ln_Phi q sigma alpha z0 i log_a0 log_a1 of
        Inl e \<Rightarrow> Some (Inl e)
      | Inr (a0, a1, stop) \<Rightarrow>
          if stop then Some (Inr (a0, a1))
          else frac_loop ln_Phi q sigma alpha z0 (Suc i) a0 a1)"

text \<open>\<^verbatim>\<open>return _log_add(log_a0, log_a1) / (alpha - 1)\<close>\<close>

definition frac_finish :: "pyfloat \<Rightarrow> pyfloat \<times> pyfloat \<Rightarrow> py_error + pyfloat" where
  "frac_finish alpha acc =
     ebind (u_log_add (fst acc) (snd acc)) (\<lambda>s. py_div s (py_sub alpha (Fin 1)))"

definition u_compute_log_a_for_frac_alpha ::
  "(real \<Rightarrow> real) \<Rightarrow> pyfloat \<Rightarrow> pyfloat \<Rightarrow> pyfloat \<Rightarrow> (py_error + pyfloat) option" where
  "u_compute_log_a_for_frac_alpha ln_Phi q sigma alpha =
     (case frac_z0 q sigma of
        Inl e \<Rightarrow> Some (Inl e)
      | Inr z0 \<Rightarrow>
          (case frac_loop ln_Phi q sigma alpha z0 0 NInf NInf of
             None \<Rightarrow> None
           | Some r \<Rightarrow> Some (ebind r (frac_finish alpha))))"

subsection \<open>The dispatch\<close>

text \<open>
  \<^verbatim>\<open>float(alpha).is_integer()\<close> is false for NaN, and \<^verbatim>\<open>int(alpha)\<close> truncates
  towards zero.
\<close>

fun float_is_integer :: "pyfloat \<Rightarrow> bool" where
  "float_is_integer (Fin a) = is_integer a"
| "float_is_integer PInf = False"
| "float_is_integer NInf = False"
| "float_is_integer NaN = False"

fun py_int :: "pyfloat \<Rightarrow> py_error + int" where
  "py_int (Fin a) = Inr (if 0 \<le> a then \<lfloor>a\<rfloor> else \<lceil>a\<rceil>)"
| "py_int PInf = Inl OverflowError"
| "py_int NInf = Inl OverflowError"
| "py_int NaN = Inl ValueError"

definition u_compute_rdp ::
  "(real \<Rightarrow> real) \<Rightarrow> pyfloat \<Rightarrow> pyfloat \<Rightarrow> pyfloat \<Rightarrow> (py_error + pyfloat) option" where
  "u_compute_rdp ln_Phi q sigma alpha =
     (if py_eq q (Fin 0) then Some (Inr (Fin 0))
      else if py_eq sigma (Fin 0) then Some (Inr PInf)
      else if py_eq q (Fin 1) then
        Some (ebind (py_pow sigma (Fin 2)) (\<lambda>s2. py_div alpha (py_mul (Fin 2) s2)))
      else if np_isinf alpha then Some (Inr PInf)
      else if float_is_integer alpha then
        Some (ebind (py_int alpha) (u_compute_log_a_for_int_alpha q sigma))
      else u_compute_log_a_for_frac_alpha ln_Phi q sigma alpha)"

section \<open>Randomized response at one order\<close>

definition u_compute_rdp_randomized_response :: "pyfloat \<Rightarrow> pyfloat \<Rightarrow> py_error + pyfloat" where
  "u_compute_rdp_randomized_response p alpha =
     ebind (py_pow p alpha) (\<lambda>a1.
     ebind (py_pow (py_sub (Fin 1) p) (py_sub (Fin 1) alpha)) (\<lambda>a2.
     let item1 = py_mul a1 a2 in
     ebind (py_pow (py_sub (Fin 1) p) alpha) (\<lambda>b1.
     ebind (py_pow p (py_sub (Fin 1) alpha)) (\<lambda>b2.
     let item2 = py_mul b1 b2 in
     ebind (math_log (py_add item1 item2)) (\<lambda>l.
     py_div l (py_sub alpha (Fin 1)))))))"

section \<open>The two entry points\<close>

text \<open>
  \<^verbatim>\<open>orders\<close> is a scalar or a sequence (\<^verbatim>\<open>np.isscalar\<close> decides), and the result has
  the same shape. The list comprehension evaluates the orders from left to right and
  stops at the first one that raises or does not return.
\<close>

datatype 'a shape = Scalar 'a | Seq "'a list"

fun each_order :: "('a \<Rightarrow> ('e + 'b) option) \<Rightarrow> 'a list \<Rightarrow> ('e + 'b list) option" where
  "each_order f [] = Some (Inr [])"
| "each_order f (x # xs) =
     (case f x of
        None \<Rightarrow> None
      | Some (Inl e) \<Rightarrow> Some (Inl e)
      | Some (Inr v) \<Rightarrow>
          (case each_order f xs of
             None \<Rightarrow> None
           | Some (Inl e) \<Rightarrow> Some (Inl e)
           | Some (Inr vs) \<Rightarrow> Some (Inr (v # vs))))"

definition over_orders ::
  "('a \<Rightarrow> ('e + 'b) option) \<Rightarrow> 'a shape \<Rightarrow> ('e + 'b shape) option" where
  "over_orders f orders =
     (case orders of
        Scalar order \<Rightarrow> map_option (map_sum id Scalar) (f order)
      | Seq os \<Rightarrow> map_option (map_sum id Seq) (each_order f os))"

text \<open>\<^verbatim>\<open>shape\<close> values are multiplied element by element, as numpy arrays are.\<close>

fun map_shape :: "('a \<Rightarrow> 'b) \<Rightarrow> 'a shape \<Rightarrow> 'b shape" where
  "map_shape f (Scalar x) = Scalar (f x)"
| "map_shape f (Seq xs) = Seq (map f xs)"

text \<open>\<^verbatim>\<open>compute_rdp\<close>: \<^verbatim>\<open>return rdp * steps\<close>\<close>

definition compute_rdp ::
  "(real \<Rightarrow> real) \<Rightarrow> pyfloat \<Rightarrow> pyfloat \<Rightarrow> int \<Rightarrow> pyfloat shape
    \<Rightarrow> (py_error + pyfloat shape) option" where
  "compute_rdp ln_Phi q noise_multiplier steps orders =
     map_option (map_sum id (map_shape (\<lambda>rdp. py_mul rdp (Fin (of_int steps)))))
       (over_orders (u_compute_rdp ln_Phi q noise_multiplier) orders)"

text \<open>\<^verbatim>\<open>compute_rdp_randomized_response\<close>: \<^verbatim>\<open>return q * rdp * steps\<close>\<close>

definition compute_rdp_randomized_response ::
  "pyfloat \<Rightarrow> int \<Rightarrow> pyfloat shape \<Rightarrow> pyfloat \<Rightarrow> (py_error + pyfloat shape) option" where
  "compute_rdp_randomized_response p steps orders q =
     map_option (map_sum id (map_shape (\<lambda>rdp. py_mul (py_mul q rdp) (Fin (of_int steps)))))
       (over_orders (\<lambda>order. Some (u_compute_rdp_randomized_response p order)) orders)"

section \<open>Runs of the fractional loop\<close>

text \<open>
  What the \<^verbatim>\<open>while True\<close> loop is compared with. \<open>frac_converged_at\<close> says that the
  terms at index \<open>i\<close> are computed without an exception and pass the test that ends
  the loop. \<open>frac_run n i\<close> performs the \<open>n\<close> rounds \<open>i, i + 1, \<dots>, i + n - 1\<close> of the
  loop body one after the other, whatever their tests say, and stops early only at
  an exception.
\<close>

definition frac_converged_at ::
  "(real \<Rightarrow> real) \<Rightarrow> pyfloat \<Rightarrow> pyfloat \<Rightarrow> pyfloat \<Rightarrow> pyfloat \<Rightarrow> nat \<Rightarrow> bool" where
  "frac_converged_at ln_Phi q sigma alpha z0 i =
     (case frac_terms ln_Phi q sigma alpha z0 i of
        Inl e \<Rightarrow> False
      | Inr (coef, log_s0, log_s1) \<Rightarrow> converged log_s0 log_s1)"

fun frac_run ::
  "(real \<Rightarrow> real) \<Rightarrow> pyfloat \<Rightarrow> pyfloat \<Rightarrow> pyfloat \<Rightarrow> pyfloat \<Rightarrow> nat \<Rightarrow> nat \<Rightarrow> pyfloat \<Rightarrow> pyfloat
    \<Rightarrow> py_error + (pyfloat \<times> pyfloat)" where
  "frac_run ln_Phi q sigma alpha z0 0 i log_a0 log_a1 = Inr (log_a0, log_a1)"
| "frac_run ln_Phi q sigma alpha z0 (Suc n) i log_a0 log_a1 =
     ebind (frac_body ln_Phi q sigma alpha z0 i log_a0 log_a1) (\<lambda>(a0, a1, stop).
     frac_run ln_Phi q sigma alpha z0 n (Suc i) a0 a1)"

section \<open>The closed form of randomized response\<close>

text \<open>
  The formula of the spec for one order, on the reals:
  \<open>log (p\<^sup>\<alpha> (1 - p)\<^sup>1\<^sup>-\<^sup>\<alpha> + (1 - p)\<^sup>\<alpha> p\<^sup>1\<^sup>-\<^sup>\<alpha>) / (\<alpha> - 1)\<close>. It is what the code is compared with.
\<close>

definition rdp_rr :: "real \<Rightarrow> real \<Rightarrow> real" where
  "rdp_rr p alpha =
     ln (p powr alpha * (1 - p) powr (1 - alpha) + (1 - p) powr alpha * p powr (1 - alpha))
       / (alpha - 1)"

section \<open>The series of the fractional path in closed form\<close>





section \<open>Facts about the arithmetic\<close>

lemma dbl_max_ge_1: "1 \<le> dbl_max"
  by (simp add: dbl_max_def)

lemma finite_result_in: "\<bar>r\<bar> \<le> dbl_max \<Longrightarrow> finite_result r = Inr (Fin r)"
  by (simp add: finite_result_def)

lemma finite_result_out: "dbl_max < \<bar>r\<bar> \<Longrightarrow> finite_result r = Inl OverflowError"
  by (simp add: finite_result_def)

lemma finite_result_one: "finite_result 1 = Inr (Fin 1)"
  using dbl_max_ge_1 by (simp add: finite_result_def)

lemma py_lt_asym: "py_lt x y \<Longrightarrow> \<not> py_lt y x"
  by (cases x; cases y) simp_all

lemma py_lt_total: "x \<noteq> NaN \<Longrightarrow> y \<noteq> NaN \<Longrightarrow> py_lt x y \<or> x = y \<or> py_lt y x"
  by (cases x; cases y) auto

lemma py_min_max_comm:
  "x \<noteq> NaN \<Longrightarrow> y \<noteq> NaN \<Longrightarrow> py_min x y = py_min y x \<and> py_max x y = py_max y x"
  using py_lt_total[of x y] py_lt_asym[of x y] py_lt_asym[of y x]
  by (auto simp: py_min_def py_max_def py_gt_def)

text \<open>The double range lies between \<open>e\<close> and \<open>e\<^sup>2\<^sup>0\<^sup>0\<^sup>0\<close>.\<close>

lemma exp_1_small: "\<not> dbl_max < exp 1 - 1"
proof -
  have "exp (1::real) \<le> 3" by (rule exp_le)
  moreover have "(3::real) \<le> dbl_max" by (simp add: dbl_max_def)
  ultimately show ?thesis by linarith
qed

lemma exp_2000_big: "dbl_max < exp 2000 - 1"
proof -
  have "(2::real) \<le> exp 1" using exp_ge_add_one_self[of "1::real"] by simp
  then have "(2::real) ^ 2000 \<le> exp 1 ^ 2000" by (rule power_mono) simp
  also have "exp (1::real) ^ 2000 = exp 2000"
    using exp_of_nat_mult[of 2000 "1::real"] by simp
  finally have "(2::real) ^ 2000 \<le> exp 2000" .
  moreover have "dbl_max < 2 ^ 2000 - 1" by (simp add: dbl_max_def)
  ultimately show ?thesis by linarith
qed

section \<open>Addition in log space\<close>

lemma log_add_comm: "x \<noteq> NaN \<Longrightarrow> y \<noteq> NaN \<Longrightarrow> u_log_add x y = u_log_add y x"
  using py_min_max_comm[of x y] by (simp add: u_log_add_def)

lemma log_add_NInf: "u_log_add x NInf = Inr x"
  by (cases x)
     (simp_all add: u_log_add_def py_min_def py_max_def py_gt_def py_eq_def ebind_def py_sub_def)


lemma log_add_Fin:
  "u_log_add (Fin a) (Fin b) = Inr (Fin (ln (1 + exp (min a b - max a b)) + max a b))"
proof -
  have "exp (min a b - max a b) \<le> 1" by simp
  with dbl_max_ge_1 have "\<not> dbl_max < exp (min a b - max a b)" by linarith
  moreover have "- 1 < exp (min a b - max a b)"
    using exp_gt_zero[of "min a b - max a b"] by linarith
  ultimately show ?thesis
    by (cases "a < b"; cases "b < a")
       (simp_all add: u_log_add_def py_min_def py_max_def py_gt_def py_eq_def ebind_def
          py_sub_def min_def max_def)
qed

lemma ln_sum_exp: "ln (1 + exp (min a b - max a b)) + max a b = ln (exp a + exp b)"
  for a b :: real
proof -
  have "exp a + exp b = (1 + exp (min a b - max a b)) * exp (max a b)"
    by (cases "a \<le> b") (simp_all add: algebra_simps min_def max_def flip: exp_add)
  moreover have "0 < 1 + exp (min a b - max a b)"
    using exp_gt_zero[of "min a b - max a b"] by linarith
  ultimately show ?thesis
    by (simp add: ln_mult)
qed

text \<open>
  C7. \<^verbatim>\<open>_log_add\<close> is commutative on log-space values: numbers and \<open>-\<infinity>\<close>, and
  \<open>+\<infinity>\<close> as well. NaN is not a log-space value, and \<^verbatim>\<open>min\<close> and \<^verbatim>\<open>max\<close> keep their
  first argument next to it, so the two argument orders are only compared away from
  NaN. \<open>-\<infinity>\<close> is the identity for every \<open>x\<close>. On two numbers the result is
  \<open>log1p (exp (a - b)) + b\<close> with \<open>a\<close> the smaller and \<open>b\<close> the larger one, which is
  \<open>log (exp logx + exp logy)\<close>; no exception is raised.
\<close>

theorem log_add_commutative:
  "(x \<noteq> NaN \<and> y \<noteq> NaN \<longrightarrow> u_log_add x y = u_log_add y x)
   \<and> u_log_add x NInf = Inr x
   \<and> u_log_add (Fin a) (Fin b) = Inr (Fin (ln (1 + exp (min a b - max a b)) + max a b))
   \<and> u_log_add (Fin a) (Fin b) = Inr (Fin (ln (exp a + exp b)))"
  using log_add_comm[of x y] log_add_NInf[of x] log_add_Fin[of a b] ln_sum_exp[of a b]
  by simp

theorem log_add_commutative_witness:
  "u_log_add (Fin 3) NInf = u_log_add NInf (Fin 3)
   \<and> u_log_add (Fin 3) NInf = Inr (Fin 3)
   \<and> u_log_add (Fin 0) (Fin 0) = Inr (Fin (ln 2))"
  using log_add_commutative[of "Fin 3" NInf 0 0] by auto

section \<open>Subtraction in log space\<close>

lemma log_sub_raises: "py_lt x y \<Longrightarrow> u_log_sub x y = Inl ValueError"
  by (simp add: u_log_sub_def)

lemma log_sub_Fin:
  "b < a \<Longrightarrow> u_log_sub (Fin a) (Fin b) =
     (if dbl_max < exp (a - b) - 1 then Inr (Fin a) else Inr (Fin (ln (exp (a - b) - 1) + b)))"
  by (simp add: u_log_sub_def py_eq_def py_sub_def ebind_def)

lemma log_sub_returns: "\<not> py_lt x y \<Longrightarrow> \<exists>v. u_log_sub x y = Inr v"
  by (cases x; cases y)
     (auto simp: u_log_sub_def py_eq_def py_sub_def ebind_def not_less
        split: py_error.splits sum.splits)

lemma log_sub_NInf: "u_log_sub x NInf = Inr x"
  by (cases x) (simp_all add: u_log_sub_def py_eq_def)

lemma log_sub_eq: "py_eq x y \<Longrightarrow> u_log_sub x y = Inr NInf"
  by (cases x; cases y) (simp_all add: u_log_sub_def py_eq_def)

lemma ln_diff_exp: "b < a \<Longrightarrow> ln (exp (a - b) - 1) + b = ln (exp a - exp b)"
  for a b :: real
proof -
  assume "b < a"
  then have "0 < exp (a - b) - 1" by simp
  moreover have "exp a - exp b = (exp (a - b) - 1) * exp b"
    by (simp add: algebra_simps flip: exp_add)
  ultimately show ?thesis by (simp add: ln_mult)
qed

text \<open>
  C6. \<^verbatim>\<open>_log_sub\<close> raises if and only if \<^verbatim>\<open>logx < logy\<close>, and then it raises
  \<^verbatim>\<open>ValueError\<close>. It returns \<open>logx\<close> when \<open>logy\<close> is \<open>-\<infinity>\<close> and \<open>-\<infinity>\<close> when the two are
  equal. Otherwise, for numbers \<open>b < a\<close>, it returns \<open>log (expm1 (a - b)) + b\<close>, which
  is \<open>log (exp a - exp b)\<close>, unless \<open>expm1 (a - b)\<close> is above the double range, when
  it returns \<open>a\<close>; from \<open>+\<infinity>\<close> it returns \<open>+\<infinity>\<close>.
\<close>

theorem log_sub_cases:
  "((\<exists>e. u_log_sub x y = Inl e) \<longleftrightarrow> py_lt x y)
   \<and> (py_lt x y \<longrightarrow> u_log_sub x y = Inl ValueError)
   \<and> u_log_sub x NInf = Inr x
   \<and> (py_eq x y \<longrightarrow> u_log_sub x y = Inr NInf)
   \<and> (b < a \<longrightarrow> u_log_sub (Fin a) (Fin b) =
         (if dbl_max < exp (a - b) - 1 then Inr (Fin a)
          else Inr (Fin (ln (exp (a - b) - 1) + b))))
   \<and> (b < a \<longrightarrow> ln (exp (a - b) - 1) + b = ln (exp a - exp b))
   \<and> u_log_sub PInf (Fin b) = Inr PInf"
proof -
  have "(\<exists>e. u_log_sub x y = Inl e) \<longleftrightarrow> py_lt x y"
    using log_sub_raises[of x y] log_sub_returns[of x y] by (cases "py_lt x y") auto
  moreover have "u_log_sub PInf (Fin b) = Inr PInf"
    by (simp add: u_log_sub_def py_eq_def py_sub_def ebind_def)
  ultimately show ?thesis
    using log_sub_raises[of x y] log_sub_NInf[of x] log_sub_eq[of x y] log_sub_Fin[of b a]
      ln_diff_exp[of b a]
    by blast
qed

theorem log_sub_cases_witness:
  "u_log_sub (Fin 0) (Fin 1) = Inl ValueError
   \<and> u_log_sub (Fin 1) NInf = Inr (Fin 1)
   \<and> u_log_sub (Fin 1) (Fin 1) = Inr NInf
   \<and> u_log_sub (Fin 1) (Fin 0) = Inr (Fin (ln (exp 1 - 1)))
   \<and> u_log_sub (Fin 2000) (Fin 0) = Inr (Fin 2000)"
  using log_sub_cases[of "Fin 0" "Fin 1" 0 1] log_sub_cases[of "Fin 1" "Fin 1" 0 2000]
    exp_1_small exp_2000_big
  by (simp add: py_eq_def)

section \<open>The special cases of the Gaussian mechanism\<close>


lemma is_integer_numeral [simp]: "is_integer (numeral n)" "is_integer 1" "is_integer 0"
  by (simp_all add: is_integer_def)

lemma py_pow_square: "s\<^sup>2 \<le> dbl_max \<Longrightarrow> py_pow (Fin s) (Fin 2) = Inr (Fin (s\<^sup>2))"
  by (simp add: power_int_def finite_result_def)



lemmas rdp_simps = u_compute_rdp_def py_eq_def np_isinf_def ebind_def

lemma rdp_q0: "u_compute_rdp ln_Phi (Fin 0) sigma alpha = Some (Inr (Fin 0))"
  by (simp add: rdp_simps)

lemma rdp_sigma0: "r \<noteq> 0 \<Longrightarrow> u_compute_rdp ln_Phi (Fin r) (Fin 0) alpha = Some (Inr PInf)"
  by (simp add: rdp_simps)

lemma rdp_q1:
  "s \<noteq> 0 \<Longrightarrow> s\<^sup>2 \<le> dbl_max \<Longrightarrow>
     u_compute_rdp ln_Phi (Fin 1) (Fin s) (Fin a) = Some (Inr (Fin (a / (2 * s\<^sup>2))))"
  by (simp add: rdp_simps py_pow_square del: py_pow.simps)






lemma rdp_q1_steps:
  "s \<noteq> 0 \<Longrightarrow> s\<^sup>2 \<le> dbl_max \<Longrightarrow>
     compute_rdp ln_Phi (Fin 1) (Fin s) steps (Scalar (Fin a))
       = Some (Inr (Scalar (Fin (of_int steps * a / (2 * s\<^sup>2)))))"
  by (simp add: compute_rdp_def over_orders_def rdp_q1)



section \<open>No noise\<close>

lemma each_order_const:
  "(\<And>x. f x = Some (Inr c)) \<Longrightarrow> each_order f xs = Some (Inr (map (\<lambda>x. c) xs))"
  by (induction xs) simp_all

text \<open>
  C3, as the code has it. With \<open>sigma = 0\<close>, a sampling rate other than zero and a
  positive number of steps, \<^verbatim>\<open>compute_rdp\<close> returns \<open>+\<infinity>\<close> at every order, for a
  scalar and for each element of a sequence.
\<close>

theorem compute_rdp_sigma0:
  assumes "r \<noteq> 0" and "0 < steps"
  shows "compute_rdp ln_Phi (Fin r) (Fin 0) steps orders
           = Some (Inr (map_shape (\<lambda>x. PInf) orders))"
proof (cases orders)
  case (Scalar order)
  with assms show ?thesis
    by (simp add: compute_rdp_def over_orders_def rdp_sigma0 signed_inf_def)
next
  case (Seq os)
  have "each_order (u_compute_rdp ln_Phi (Fin r) (Fin 0)) os = Some (Inr (map (\<lambda>x. PInf) os))"
    using assms by (intro each_order_const) (simp add: rdp_sigma0)
  with Seq assms show ?thesis
    by (simp add: compute_rdp_def over_orders_def signed_inf_def)
qed

theorem compute_rdp_sigma0_witness:
  "compute_rdp (\<lambda>x. - 100) (Fin (1 / 2)) (Fin 0) 3 (Seq [Fin 2, PInf, Fin (3 / 2)])
     = Some (Inr (Seq [PInf, PInf, PInf]))"
  using compute_rdp_sigma0[of "1 / 2" 3 "\<lambda>x. - 100" "Seq [Fin 2, PInf, Fin (3 / 2)]"] by simp

text \<open>
  C3 as the spec states it, for every \<open>q\<close> in \<open>[0, 1]\<close>, is false: at \<open>q = 0\<close> the test
  \<^verbatim>\<open>q == 0\<close> comes first, and \<^verbatim>\<open>compute_rdp(0, 0, 1, 2)\<close> is \<open>0 * 1 = 0\<close>.
\<close>

theorem compute_rdp_sigma0_counterexample:
  "\<not> (\<forall>ln_Phi q steps orders. 0 \<le> q \<and> q \<le> 1 \<and> 0 < steps \<longrightarrow>
        compute_rdp ln_Phi (Fin q) (Fin 0) steps orders
          = Some (Inr (map_shape (\<lambda>x. PInf) orders)))"
proof
  assume "\<forall>ln_Phi q steps orders. 0 \<le> q \<and> q \<le> 1 \<and> 0 < steps \<longrightarrow>
        compute_rdp ln_Phi (Fin q) (Fin 0) steps orders
          = Some (Inr (map_shape (\<lambda>x. PInf) orders))"
  then have "compute_rdp (\<lambda>x. 0) (Fin 0) (Fin 0) 1 (Scalar (Fin 2)) = Some (Inr (Scalar PInf))"
    by force
  then show False
    by (simp add: compute_rdp_def over_orders_def rdp_q0)
qed

section \<open>Composition over steps\<close>

lemma py_mul_one: "py_mul x (Fin 1) = x"
  by (cases x) (simp_all add: signed_inf_def)

lemma py_mul_comm: "py_mul x y = py_mul y x"
  by (cases x; cases y) (simp_all add: mult.commute)

lemma py_mul_double:
  "py_mul x (Fin (of_int (2 * n))) = py_mul (Fin 2) (py_mul x (Fin (of_int n)))"
  by (cases x) (simp_all add: signed_inf_def)

lemma map_shape_comp: "map_shape f (map_shape g x) = map_shape (\<lambda>v. f (g v)) x"
  by (cases x) simp_all

lemma map_result_comp:
  "map_option (map_sum id (map_shape f)) (map_option (map_sum id (map_shape g)) r)
     = map_option (map_sum id (map_shape (\<lambda>v. f (g v)))) r"
proof (cases r)
  case None
  then show ?thesis by simp
next
  case (Some a)
  then show ?thesis by (cases a) (simp_all add: map_shape_comp)
qed

lemma map_result_cong:
  "(\<And>v. f v = g v) \<Longrightarrow>
     map_option (map_sum id (map_shape f)) r = map_option (map_sum id (map_shape g)) r"
  by presburger

lemma rdp_steps_from_one:
  "compute_rdp ln_Phi q sigma n orders
     = map_option (map_sum id (map_shape (py_mul (Fin (of_int n)))))
         (compute_rdp ln_Phi q sigma 1 orders)"
  unfolding compute_rdp_def map_result_comp
  by (rule map_result_cong) (simp only: of_int_1 py_mul_one, rule py_mul_comm)

lemma rdp_steps_double:
  "compute_rdp ln_Phi q sigma (2 * n) orders
     = map_option (map_sum id (map_shape (py_mul (Fin 2))))
         (compute_rdp ln_Phi q sigma n orders)"
  unfolding compute_rdp_def map_result_comp
  by (rule map_result_cong) (rule py_mul_double)

lemma rr_steps_from_one:
  "compute_rdp_randomized_response p n orders q
     = map_option (map_sum id (map_shape (py_mul (Fin (of_int n)))))
         (compute_rdp_randomized_response p 1 orders q)"
  unfolding compute_rdp_randomized_response_def map_result_comp
  by (rule map_result_cong) (simp only: of_int_1 py_mul_one, rule py_mul_comm)

lemma rr_steps_double:
  "compute_rdp_randomized_response p (2 * n) orders q
     = map_option (map_sum id (map_shape (py_mul (Fin 2))))
         (compute_rdp_randomized_response p n orders q)"
  unfolding compute_rdp_randomized_response_def map_result_comp
  by (rule map_result_cong) (rule py_mul_double)

text \<open>
  C4. The result for \<open>n\<close> steps is \<open>n\<close> times the result for one step, and the result
  for \<open>2 n\<close> steps is twice the result for \<open>n\<close> steps, order by order, for both entry
  points. Whatever one side does the other does: the same exception, no result, or
  the multiplied values. It holds for every integer \<open>n\<close>, the positive ones among
  them, and for every \<open>q\<close>, \<open>sigma\<close>, \<open>p\<close> and shape of \<open>orders\<close>.
\<close>

theorem steps_linear:
  "compute_rdp ln_Phi q sigma n orders
     = map_option (map_sum id (map_shape (py_mul (Fin (of_int n)))))
         (compute_rdp ln_Phi q sigma 1 orders)
   \<and> compute_rdp ln_Phi q sigma (2 * n) orders
     = map_option (map_sum id (map_shape (py_mul (Fin 2))))
         (compute_rdp ln_Phi q sigma n orders)
   \<and> compute_rdp_randomized_response p n orders q'
     = map_option (map_sum id (map_shape (py_mul (Fin (of_int n)))))
         (compute_rdp_randomized_response p 1 orders q')
   \<and> compute_rdp_randomized_response p (2 * n) orders q'
     = map_option (map_sum id (map_shape (py_mul (Fin 2))))
         (compute_rdp_randomized_response p n orders q')"
  using rdp_steps_from_one[of ln_Phi q sigma n orders] rdp_steps_double[of ln_Phi q sigma n orders]
    rr_steps_from_one[of p n orders q'] rr_steps_double[of p n orders q']
  by simp

theorem steps_linear_witness:
  "compute_rdp (\<lambda>x. - 100) (Fin 1) (Fin 1) 6 (Scalar (Fin 2)) = Some (Inr (Scalar (Fin 6)))"
proof -
  have "compute_rdp (\<lambda>x. - 100) (Fin 1) (Fin 1) 3 (Scalar (Fin 2)) = Some (Inr (Scalar (Fin 3)))"
    using rdp_q1_steps[of 1 "\<lambda>x. - 100" 3 2] dbl_max_ge_1 by simp
  then show ?thesis
    using steps_linear[of "\<lambda>x. - 100" "Fin 1" "Fin 1" 3 "Scalar (Fin 2)", THEN conjunct2,
        THEN conjunct1]
    by simp
qed

section \<open>Randomized response: the value\<close>

lemma py_pow_pos: "0 < b \<Longrightarrow> e \<noteq> 0 \<Longrightarrow> py_pow (Fin b) (Fin e) = finite_result (b powr e)"
proof -
  assume b: "0 < b" and e: "e \<noteq> 0"
  have "is_integer e \<Longrightarrow> b powi \<lfloor>e\<rfloor> = b powr e"
  proof -
    assume "is_integer e"
    then have "e = of_int \<lfloor>e\<rfloor>" by (simp add: is_integer_def)
    then have "b powr e = b powr of_int \<lfloor>e\<rfloor>" by simp
    also have "\<dots> = b powi \<lfloor>e\<rfloor>" using b by (intro powr_real_of_int') simp_all
    finally show ?thesis by simp
  qed
  with b e show ?thesis by simp
qed

lemma py_pow_small:
  assumes "0 < b" "b < 1" "0 < e"
  shows "py_pow (Fin b) (Fin e) = Inr (Fin (b powr e))"
proof -
  have "b powr e \<le> 1" using assms by (intro powr_le1) simp_all
  with dbl_max_ge_1 have "\<bar>b powr e\<bar> \<le> dbl_max" by simp
  then show ?thesis
    using assms py_pow_pos[of b e] by (simp add: finite_result_in del: py_pow.simps)
qed

lemma rr_value:
  assumes "0 < p" "p < 1" "1 < a"
  shows "u_compute_rdp_randomized_response (Fin p) (Fin a) =
    (if dbl_max < (1 - p) powr (1 - a) \<or> dbl_max < p powr (1 - a) then Inl OverflowError
     else Inr (Fin (rdp_rr p a)))"
proof -
  have 1: "py_pow (Fin p) (Fin a) = Inr (Fin (p powr a))"
    using assms by (intro py_pow_small) simp_all
  have 2: "py_pow (Fin (1 - p)) (Fin (1 - a)) = finite_result ((1 - p) powr (1 - a))"
    using assms by (intro py_pow_pos) simp_all
  have 3: "py_pow (Fin (1 - p)) (Fin a) = Inr (Fin ((1 - p) powr a))"
    using assms by (intro py_pow_small) simp_all
  have 4: "py_pow (Fin p) (Fin (1 - a)) = finite_result (p powr (1 - a))"
    using assms by (intro py_pow_pos) simp_all
  have "0 < p powr a * (1 - p) powr (1 - a) + (1 - p) powr a * p powr (1 - a)"
    using assms by (intro add_pos_pos mult_pos_pos) simp_all
  with assms show ?thesis
    by (simp add: u_compute_rdp_randomized_response_def ebind_def py_sub_def 1 2 3 4
        finite_result_def rdp_rr_def del: py_pow.simps)
qed

lemma rr_in_range:
  "0 < p \<Longrightarrow> p < 1 \<Longrightarrow> 1 < a \<Longrightarrow> (1 - p) powr (1 - a) \<le> dbl_max \<Longrightarrow> p powr (1 - a) \<le> dbl_max \<Longrightarrow>
     u_compute_rdp_randomized_response (Fin p) (Fin a) = Inr (Fin (rdp_rr p a))"
  by (simp add: rr_value)

lemma rr_overflow:
  "0 < p \<Longrightarrow> p < 1 \<Longrightarrow> 1 < a \<Longrightarrow> dbl_max < (1 - p) powr (1 - a) \<or> dbl_max < p powr (1 - a) \<Longrightarrow>
     u_compute_rdp_randomized_response (Fin p) (Fin a) = Inl OverflowError"
  by (simp add: rr_value)

lemma rdp_rr_half: "rdp_rr (1 / 2) a = 0"
proof -
  have "(1 / 2 :: real) powr a * (1 / 2) powr (1 - a) = (1 / 2) powr (a + (1 - a))"
    by (simp only: powr_add)
  then have "(1 / 2 :: real) powr a * (1 / 2) powr (1 - a) = 1 / 2" by simp
  then have "(1 / 2 :: real) powr a * (1 - 1 / 2) powr (1 - a)
      + (1 - 1 / 2) powr a * (1 / 2) powr (1 - a) = 1"
    by (simp add: mult.commute)
  then show ?thesis by (simp only: rdp_rr_def ln_one div_0)
qed

lemma powr_flip: "0 < b \<Longrightarrow> b powr (1 - a) = (1 / b) powr (a - 1)"
  for a b :: real
  by (simp add: powr_def ln_div algebra_simps)

lemma powr_in_range:
  assumes "0 < b" "b < 1" "1 / b \<le> c" "c ^ m \<le> dbl_max" "a \<le> 1 + real m"
  shows "b powr (1 - a) \<le> dbl_max"
proof -
  have "b powr (1 - a) = (1 / b) powr (a - 1)" using assms(1) by (rule powr_flip)
  also have "\<dots> \<le> (1 / b) powr real m"
    using assms by (intro powr_mono) simp_all
  also have "\<dots> = (1 / b) ^ m" using assms by (simp add: powr_realpow)
  also have "\<dots> \<le> c ^ m" using assms by (intro power_mono) simp_all
  finally show ?thesis using assms(4) by simp
qed

lemma powr_out_of_range:
  assumes "0 < b" "b < 1" "0 \<le> c" "c \<le> 1 / b" "dbl_max < c ^ m" "1 + real m \<le> a"
  shows "dbl_max < b powr (1 - a)"
proof -
  have "c ^ m \<le> (1 / b) ^ m" using assms by (intro power_mono) simp_all
  also have "\<dots> = (1 / b) powr real m" using assms by (simp add: powr_realpow)
  also have "\<dots> \<le> (1 / b) powr (a - 1)"
    using assms by (intro powr_mono) simp_all
  also have "\<dots> = b powr (1 - a)" using assms(1) by (rule powr_flip[symmetric])
  finally show ?thesis using assms(5) by simp
qed

lemma half_in_range: "a \<le> 1024 \<Longrightarrow> (1 / 2 :: real) powr (1 - a) \<le> dbl_max"
  by (rule powr_in_range[where c = 2 and m = 1023]) (simp_all add: dbl_max_def)

lemma half_overflow: "1025 \<le> a \<Longrightarrow> dbl_max < (1 / 2 :: real) powr (1 - a)"
  by (rule powr_out_of_range[where c = 2 and m = 1024]) (simp_all add: dbl_max_def)

lemma each_order_map:
  "(\<And>x. x \<in> set xs \<Longrightarrow> f x = Inr (g x)) \<Longrightarrow>
     each_order (\<lambda>x. Some (f x)) xs = Some (Inr (map g xs))"
  by (induction xs) simp_all

lemma each_order_raises:
  "(\<And>x. x \<in> set xs \<Longrightarrow> f x = Inr (g x) \<or> f x = Inl e) \<Longrightarrow> \<exists>x \<in> set xs. f x = Inl e \<Longrightarrow>
     each_order (\<lambda>x. Some (f x)) xs = Some (Inl e)"
proof (induction xs)
  case Nil
  then show ?case by simp
next
  case (Cons x xs)
  show ?case
  proof (cases "f x")
    case (Inl e')
    with Cons.prems(1)[of x] show ?thesis by simp
  next
    case (Inr v)
    with Cons.prems(2) have "\<exists>y \<in> set xs. f y = Inl e" by auto
    with Cons.IH Cons.prems(1) have "each_order (\<lambda>x. Some (f x)) xs = Some (Inl e)" by simp
    with Inr show ?thesis by simp
  qed
qed

lemma rr_scalar:
  assumes "0 < p" "p < 1" "1 < a" "(1 - p) powr (1 - a) \<le> dbl_max" "p powr (1 - a) \<le> dbl_max"
  shows "compute_rdp_randomized_response (Fin p) steps (Scalar (Fin a)) (Fin q)
     = Some (Inr (Scalar (Fin (q * of_int steps * rdp_rr p a))))"
  using assms
  by (simp add: compute_rdp_randomized_response_def over_orders_def rr_in_range mult_ac)

lemma rr_seq:
  assumes "0 < p" "p < 1" "\<forall>a \<in> set as. 1 < a"
    "\<forall>a \<in> set as. (1 - p) powr (1 - a) \<le> dbl_max \<and> p powr (1 - a) \<le> dbl_max"
  shows "compute_rdp_randomized_response (Fin p) steps (Seq (map Fin as)) (Fin q)
     = Some (Inr (Seq (map (\<lambda>a. Fin (q * of_int steps * rdp_rr p a)) as)))"
proof -
  have "each_order (\<lambda>x. Some (u_compute_rdp_randomized_response (Fin p) x)) (map Fin as)
      = Some (Inr (map (\<lambda>x. case x of Fin a \<Rightarrow> Fin (rdp_rr p a) | _ \<Rightarrow> x) (map Fin as)))"
    using assms by (intro each_order_map) (auto simp: rr_in_range)
  then show ?thesis
    by (simp add: compute_rdp_randomized_response_def over_orders_def comp_def mult_ac)
qed

lemma rr_scalar_overflow:
  assumes "0 < p" "p < 1" "1 < a" "dbl_max < (1 - p) powr (1 - a) \<or> dbl_max < p powr (1 - a)"
  shows "compute_rdp_randomized_response (Fin p) steps (Scalar (Fin a)) q
     = Some (Inl OverflowError)"
  using assms
  by (simp add: compute_rdp_randomized_response_def over_orders_def rr_overflow)

lemma rr_seq_overflow:
  assumes "0 < p" "p < 1" "\<forall>a \<in> set as. 1 < a"
    "\<exists>a \<in> set as. dbl_max < (1 - p) powr (1 - a) \<or> dbl_max < p powr (1 - a)"
  shows "compute_rdp_randomized_response (Fin p) steps (Seq (map Fin as)) q
     = Some (Inl OverflowError)"
proof -
  have "each_order (\<lambda>x. Some (u_compute_rdp_randomized_response (Fin p) x)) (map Fin as)
      = Some (Inl OverflowError)"
  proof (rule each_order_raises[where g = "\<lambda>x. case x of Fin a \<Rightarrow> Fin (rdp_rr p a) | _ \<Rightarrow> x"])
    fix x assume "x \<in> set (map Fin as)"
    then obtain a where a: "x = Fin a" "a \<in> set as" by auto
    with assms have "1 < a" by simp
    with a assms(1,2) show "u_compute_rdp_randomized_response (Fin p) x
        = Inr (case x of Fin a \<Rightarrow> Fin (rdp_rr p a) | _ \<Rightarrow> x)
      \<or> u_compute_rdp_randomized_response (Fin p) x = Inl OverflowError"
      by (simp add: rr_value)
  next
    from assms(4) obtain a where a: "a \<in> set as"
      "dbl_max < (1 - p) powr (1 - a) \<or> dbl_max < p powr (1 - a)" by blast
    with assms have "u_compute_rdp_randomized_response (Fin p) (Fin a) = Inl OverflowError"
      by (intro rr_overflow) simp_all
    with a(1) show "\<exists>x \<in> set (map Fin as).
        u_compute_rdp_randomized_response (Fin p) x = Inl OverflowError"
      by auto
  qed
  then show ?thesis
    by (simp add: compute_rdp_randomized_response_def over_orders_def)
qed

lemma rr_half_scalar:
  assumes "1 < a" "a \<le> 1024"
  shows "compute_rdp_randomized_response (Fin (1 / 2)) steps (Scalar (Fin a)) (Fin q)
     = Some (Inr (Scalar (Fin 0)))"
  using rr_scalar[of "1 / 2" a steps q] assms half_in_range[of a] by (simp add: rdp_rr_half)

lemma rr_half_seq:
  assumes "\<forall>a \<in> set as. 1 < a" "\<forall>a \<in> set as. a \<le> 1024"
  shows "compute_rdp_randomized_response (Fin (1 / 2)) steps (Seq (map Fin as)) (Fin q)
     = Some (Inr (Seq (map (\<lambda>x. Fin 0) as)))"
  using rr_seq[of "1 / 2" as steps q] assms half_in_range by (simp add: rdp_rr_half)

lemma rr_half_overflow:
  assumes "1025 \<le> a"
  shows "compute_rdp_randomized_response (Fin (1 / 2)) steps (Scalar (Fin a)) q
     = Some (Inl OverflowError)"
  using rr_scalar_overflow[of "1 / 2" a steps q] assms half_overflow[of a] by simp

text \<open>
  C8, as the code has it. For \<open>0 < p < 1\<close> and an order \<open>\<alpha> > 1\<close> the powers \<open>p\<^sup>\<alpha>\<close> and
  \<open>(1 - p)\<^sup>\<alpha>\<close> are below one, and the powers \<open>(1 - p)\<^sup>1\<^sup>-\<^sup>\<alpha>\<close> and \<open>p\<^sup>1\<^sup>-\<^sup>\<alpha>\<close> are above one.
  When one of these two is above the largest double, \<^verbatim>\<open>**\<close> raises \<^verbatim>\<open>OverflowError\<close>
  and so does the entry point, for a scalar order and for a sequence that holds such
  an order. When both are in the double range, \<^verbatim>\<open>_compute_rdp_randomized_response\<close>
  returns the closed form \<open>rdp_rr p \<alpha>\<close>, and \<^verbatim>\<open>compute_rdp_randomized_response\<close> returns
  \<open>q \<sqdot> steps \<sqdot> rdp_rr p \<alpha>\<close> for a scalar order and for each order of a sequence, in the
  order of the sequence: the sampling rate \<open>q\<close> is a factor of the result. At
  \<open>p = 1/2\<close> the value is \<open>0\<close> at every order up to \<open>1024\<close>, and from the order \<open>1025\<close> on
  \<open>0.5 ** (1 - \<alpha>)\<close> is above the double range. Orders are numbers.
\<close>

theorem randomized_response_formula:
  assumes "0 < p" and "p < 1" and "1 < a" and "\<forall>x \<in> set as. 1 < x"
  shows "u_compute_rdp_randomized_response (Fin p) (Fin a) =
        (if dbl_max < (1 - p) powr (1 - a) \<or> dbl_max < p powr (1 - a) then Inl OverflowError
         else Inr (Fin (rdp_rr p a)))
    \<and> ((1 - p) powr (1 - a) \<le> dbl_max \<and> p powr (1 - a) \<le> dbl_max \<longrightarrow>
        compute_rdp_randomized_response (Fin p) steps (Scalar (Fin a)) (Fin q)
          = Some (Inr (Scalar (Fin (q * of_int steps * rdp_rr p a)))))
    \<and> ((\<forall>x \<in> set as. (1 - p) powr (1 - x) \<le> dbl_max \<and> p powr (1 - x) \<le> dbl_max) \<longrightarrow>
        compute_rdp_randomized_response (Fin p) steps (Seq (map Fin as)) (Fin q)
          = Some (Inr (Seq (map (\<lambda>x. Fin (q * of_int steps * rdp_rr p x)) as))))
    \<and> (dbl_max < (1 - p) powr (1 - a) \<or> dbl_max < p powr (1 - a) \<longrightarrow>
        compute_rdp_randomized_response (Fin p) steps (Scalar (Fin a)) (Fin q)
          = Some (Inl OverflowError))
    \<and> ((\<exists>x \<in> set as. dbl_max < (1 - p) powr (1 - x) \<or> dbl_max < p powr (1 - x)) \<longrightarrow>
        compute_rdp_randomized_response (Fin p) steps (Seq (map Fin as)) (Fin q)
          = Some (Inl OverflowError))
    \<and> (a \<le> 1024 \<longrightarrow>
        compute_rdp_randomized_response (Fin (1 / 2)) steps (Scalar (Fin a)) (Fin q)
          = Some (Inr (Scalar (Fin 0))))
    \<and> ((\<forall>x \<in> set as. x \<le> 1024) \<longrightarrow>
        compute_rdp_randomized_response (Fin (1 / 2)) steps (Seq (map Fin as)) (Fin q)
          = Some (Inr (Seq (map (\<lambda>x. Fin 0) as))))
    \<and> (1025 \<le> a \<longrightarrow>
        compute_rdp_randomized_response (Fin (1 / 2)) steps (Scalar (Fin a)) (Fin q)
          = Some (Inl OverflowError))"
  using assms rr_value[of p a] rr_scalar[of p a steps q] rr_seq[of p as steps q]
    rr_scalar_overflow[of p a steps "Fin q"] rr_seq_overflow[of p as steps "Fin q"]
    rr_half_scalar[of a steps q] rr_half_seq[of as steps q] rr_half_overflow[of a steps "Fin q"]
  by blast

theorem randomized_response_formula_witness:
  "compute_rdp_randomized_response (Fin (7 / 10)) 100 (Scalar (Fin 2)) (Fin (1 / 20))
        = Some (Inr (Scalar (Fin (5 * rdp_rr (7 / 10) 2))))
   \<and> compute_rdp_randomized_response (Fin (7 / 10)) 100 (Seq [Fin (11 / 10), Fin 127]) (Fin (1 / 20))
        = Some (Inr (Seq [Fin (5 * rdp_rr (7 / 10) (11 / 10)), Fin (5 * rdp_rr (7 / 10) 127)]))
   \<and> compute_rdp_randomized_response (Fin (1 / 2)) 100 (Seq [Fin (11 / 10), Fin 127]) (Fin (1 / 20))
        = Some (Inr (Seq [Fin 0, Fin 0]))
   \<and> compute_rdp_randomized_response (Fin (999 / 1000)) 100 (Seq [Fin (11 / 10), Fin 127])
        (Fin (1 / 20)) = Some (Inl OverflowError)
   \<and> compute_rdp_randomized_response (Fin (1 / 2)) 100 (Scalar (Fin 1100)) (Fin (1 / 20))
        = Some (Inl OverflowError)"
proof -
  have "(3 / 10 :: real) powr (1 - a) \<le> dbl_max" if "a \<le> 127" for a
    using that by (intro powr_in_range[where c = 4 and m = 126]) (simp_all add: dbl_max_def)
  moreover have "(7 / 10 :: real) powr (1 - a) \<le> dbl_max" if "a \<le> 127" for a
    using that by (intro powr_in_range[where c = 2 and m = 126]) (simp_all add: dbl_max_def)
  ultimately have r:
    "(3 / 10 :: real) powr (1 - a) \<le> dbl_max \<and> (7 / 10 :: real) powr (1 - a) \<le> dbl_max"
    if "a \<le> 127" for a
    using that by simp
  have b: "dbl_max < (1 / 1000 :: real) powr (1 - 127)"
    by (rule powr_out_of_range[where c = 1000 and m = 126]) (simp_all add: dbl_max_def)
  show ?thesis
    using randomized_response_formula[of "7 / 10" 2 "[11 / 10, 127]" 100 "1 / 20"]
      randomized_response_formula[of "999 / 1000" 1100 "[11 / 10, 127]" 100 "1 / 20"]
      r[of 2] r[of "11 / 10"] r[of 127] b
    by simp
qed

text \<open>
  C8 as the spec states it, for every \<open>p\<close> in \<open>(0, 1)\<close> and every order above one, is
  false: \<^verbatim>\<open>_compute_rdp_randomized_response(0.999, 127)\<close> raises \<^verbatim>\<open>OverflowError\<close> at
  \<^verbatim>\<open>(1 - p) ** (1 - alpha)\<close>, which is \<open>1000\<^sup>1\<^sup>2\<^sup>6\<close>, and so does the entry point; the order
  \<open>127\<close> is one of the orders that the module itself passes. At \<open>p = 1/2\<close> the order
  \<open>1100\<close> raises the same exception in place of the value \<open>0\<close>.
\<close>

theorem randomized_response_formula_counterexample:
  "u_compute_rdp_randomized_response (Fin (999 / 1000)) (Fin 127) = Inl OverflowError
   \<and> compute_rdp_randomized_response (Fin (999 / 1000)) 100 (Scalar (Fin 127)) (Fin (1 / 20))
        = Some (Inl OverflowError)
   \<and> u_compute_rdp_randomized_response (Fin (1 / 2)) (Fin 1100) = Inl OverflowError"
proof -
  have "dbl_max < (1 / 1000 :: real) powr (1 - 127)"
    by (rule powr_out_of_range[where c = 1000 and m = 126]) (simp_all add: dbl_max_def)
  then have b: "dbl_max < (1 - 999 / 1000 :: real) powr (1 - 127)"
    by simp
  have 1: "u_compute_rdp_randomized_response (Fin (999 / 1000)) (Fin 127) = Inl OverflowError"
    using b by (intro rr_overflow) simp_all
  have 2: "u_compute_rdp_randomized_response (Fin (1 / 2)) (Fin 1100) = Inl OverflowError"
    using half_overflow[of 1100] by (intro rr_overflow) simp_all
  show ?thesis
    using 1 2 by (simp add: compute_rdp_randomized_response_def over_orders_def)
qed

section \<open>Randomized response and the Gaussian mechanism at the edges\<close>

lemma rr_zero: "1 < a \<Longrightarrow> u_compute_rdp_randomized_response (Fin 0) (Fin a) = Inl ZeroDivisionError"
  by (simp add: u_compute_rdp_randomized_response_def ebind_def py_sub_def finite_result_one)

lemma rr_one: "1 < a \<Longrightarrow> u_compute_rdp_randomized_response (Fin 1) (Fin a) = Inl ZeroDivisionError"
  by (simp add: u_compute_rdp_randomized_response_def ebind_def py_sub_def finite_result_one)

lemma rr_edge_inf:
  "u_compute_rdp_randomized_response (Fin 0) PInf = Inr NaN"
  "u_compute_rdp_randomized_response (Fin 1) PInf = Inr NaN"
  by (simp_all add: u_compute_rdp_randomized_response_def ebind_def py_sub_def signed_inf_def)

lemma rr_inside_inf:
  "0 < p \<Longrightarrow> p < 1 \<Longrightarrow> u_compute_rdp_randomized_response (Fin p) PInf = Inr NaN"
  by (simp add: u_compute_rdp_randomized_response_def ebind_def py_sub_def signed_inf_def)



lemma rr_entry_raises:
  "u_compute_rdp_randomized_response p a = Inl e \<Longrightarrow>
     compute_rdp_randomized_response p steps (Scalar a) q = Some (Inl e)
     \<and> compute_rdp_randomized_response p steps (Seq (a # os)) q = Some (Inl e)"
  by (simp add: compute_rdp_randomized_response_def over_orders_def)

lemma rr_returns_iff:
  assumes "0 < p" "p < 1" "1 < a"
  shows "(\<exists>v. u_compute_rdp_randomized_response (Fin p) (Fin a) = Inr v)
     \<longleftrightarrow> (1 - p) powr (1 - a) \<le> dbl_max \<and> p powr (1 - a) \<le> dbl_max"
  using assms by (auto simp: rr_value)

text \<open>
  C10, as the code has it. For \<open>p = 0\<close> and for \<open>p = 1\<close>, at every order \<open>\<alpha> > 1\<close> that
  is a number, the computation raises zero to the negative power \<open>1 - \<alpha>\<close>, which is
  a \<^verbatim>\<open>ZeroDivisionError\<close>, and so does the entry point, for a scalar order and for
  a sequence that starts with such an order. At the order \<open>+\<infinity>\<close> nothing is raised:
  \<^verbatim>\<open>0.0 ** -inf\<close> is \<open>+\<infinity>\<close>, and the result is \<open>\<infinity> / \<infinity>\<close>, NaN. Strictly inside \<open>(0, 1)\<close>
  the computation returns exactly when \<open>(1 - p)\<^sup>1\<^sup>-\<^sup>\<alpha>\<close> and \<open>p\<^sup>1\<^sup>-\<^sup>\<alpha>\<close> are in the double
  range, and then it returns the number \<open>rdp_rr p \<alpha>\<close>; otherwise it raises
  \<^verbatim>\<open>OverflowError\<close>. At the order \<open>+\<infinity>\<close> it returns NaN there too.
\<close>

theorem randomized_response_boundary:
  assumes "1 < a" and "p = 0 \<or> p = 1"
  shows "py_pow (Fin 0) (py_sub (Fin 1) (Fin a)) = Inl ZeroDivisionError
    \<and> u_compute_rdp_randomized_response (Fin p) (Fin a) = Inl ZeroDivisionError
    \<and> compute_rdp_randomized_response (Fin p) steps (Scalar (Fin a)) q
        = Some (Inl ZeroDivisionError)
    \<and> compute_rdp_randomized_response (Fin p) steps (Seq (Fin a # os)) q
        = Some (Inl ZeroDivisionError)
    \<and> u_compute_rdp_randomized_response (Fin p) PInf = Inr NaN
    \<and> (\<forall>p'. 0 < p' \<and> p' < 1 \<longrightarrow>
          ((\<exists>v. u_compute_rdp_randomized_response (Fin p') (Fin a) = Inr v)
             \<longleftrightarrow> (1 - p') powr (1 - a) \<le> dbl_max \<and> p' powr (1 - a) \<le> dbl_max)
          \<and> ((1 - p') powr (1 - a) \<le> dbl_max \<and> p' powr (1 - a) \<le> dbl_max \<longrightarrow>
               u_compute_rdp_randomized_response (Fin p') (Fin a) = Inr (Fin (rdp_rr p' a)))
          \<and> (dbl_max < (1 - p') powr (1 - a) \<or> dbl_max < p' powr (1 - a) \<longrightarrow>
               u_compute_rdp_randomized_response (Fin p') (Fin a) = Inl OverflowError)
          \<and> u_compute_rdp_randomized_response (Fin p') PInf = Inr NaN)"
proof -
  have 1: "py_pow (Fin 0) (py_sub (Fin 1) (Fin a)) = Inl ZeroDivisionError"
    using assms(1) by (simp add: py_sub_def)
  have 2: "u_compute_rdp_randomized_response (Fin p) (Fin a) = Inl ZeroDivisionError"
    using assms rr_zero[of a] rr_one[of a] by blast
  have 3: "u_compute_rdp_randomized_response (Fin p) PInf = Inr NaN"
    using assms(2) rr_edge_inf by blast
  have 4: "\<forall>p'. 0 < p' \<and> p' < 1 \<longrightarrow>
          ((\<exists>v. u_compute_rdp_randomized_response (Fin p') (Fin a) = Inr v)
             \<longleftrightarrow> (1 - p') powr (1 - a) \<le> dbl_max \<and> p' powr (1 - a) \<le> dbl_max)
          \<and> ((1 - p') powr (1 - a) \<le> dbl_max \<and> p' powr (1 - a) \<le> dbl_max \<longrightarrow>
               u_compute_rdp_randomized_response (Fin p') (Fin a) = Inr (Fin (rdp_rr p' a)))
          \<and> (dbl_max < (1 - p') powr (1 - a) \<or> dbl_max < p' powr (1 - a) \<longrightarrow>
               u_compute_rdp_randomized_response (Fin p') (Fin a) = Inl OverflowError)
          \<and> u_compute_rdp_randomized_response (Fin p') PInf = Inr NaN"
    using assms(1) rr_returns_iff rr_in_range rr_overflow rr_inside_inf by blast
  show ?thesis
    using 1 2 3 4 rr_entry_raises[OF 2, of steps q os] by blast
qed

theorem randomized_response_boundary_witness:
  "u_compute_rdp_randomized_response (Fin 0) (Fin 2) = Inl ZeroDivisionError
   \<and> u_compute_rdp_randomized_response (Fin 1) (Fin (3 / 2)) = Inl ZeroDivisionError
   \<and> compute_rdp_randomized_response (Fin 1) 100 (Seq [Fin (3 / 2), Fin 2]) (Fin (1 / 20))
        = Some (Inl ZeroDivisionError)
   \<and> u_compute_rdp_randomized_response (Fin 1) PInf = Inr NaN
   \<and> u_compute_rdp_randomized_response (Fin (7 / 10)) (Fin 2) = Inr (Fin (rdp_rr (7 / 10) 2))
   \<and> u_compute_rdp_randomized_response (Fin (1 / 2)) (Fin 1100) = Inl OverflowError"
proof -
  have "(3 / 10 :: real) powr (1 - 2) \<le> dbl_max \<and> (7 / 10 :: real) powr (1 - 2) \<le> dbl_max"
    using powr_in_range[where b = "3 / 10" and c = 4 and m = 1 and a = 2]
      powr_in_range[where b = "7 / 10" and c = 2 and m = 1 and a = 2]
    by (simp add: dbl_max_def)
  moreover have "dbl_max < (1 - 1 / 2 :: real) powr (1 - 1100)"
    using half_overflow[of 1100] by simp
  ultimately show ?thesis
    using randomized_response_boundary[of 2 0 100 "Fin (1 / 20)" "[]"]
      randomized_response_boundary[of "3 / 2" 1 100 "Fin (1 / 20)" "[Fin 2]"]
      randomized_response_boundary[of 1100 0 100 "Fin (1 / 20)" "[]", THEN conjunct2,
        THEN conjunct2, THEN conjunct2, THEN conjunct2, THEN conjunct2, rule_format, of "1 / 2"]
    by simp
qed

text \<open>
  C10 as the spec states it is false twice. At the order \<open>+\<infinity>\<close>, which is above one,
  \<^verbatim>\<open>_compute_rdp_randomized_response(0.0, inf)\<close> raises nothing and returns NaN. And
  the computation is not total inside \<open>(0, 1)\<close>:
  \<^verbatim>\<open>_compute_rdp_randomized_response(0.997, 124)\<close> raises \<^verbatim>\<open>OverflowError\<close>.
\<close>

theorem randomized_response_boundary_counterexample:
  "u_compute_rdp_randomized_response (Fin 0) PInf = Inr NaN
   \<and> compute_rdp_randomized_response (Fin 0) 100 (Scalar PInf) (Fin (1 / 20))
        = Some (Inr (Scalar NaN))
   \<and> u_compute_rdp_randomized_response (Fin (997 / 1000)) (Fin 124) = Inl OverflowError"
proof -
  have "dbl_max < (3 / 1000 :: real) powr (1 - 124)"
    by (rule powr_out_of_range[where c = 333 and m = 123]) (simp_all add: dbl_max_def)
  then have b: "dbl_max < (1 - 997 / 1000 :: real) powr (1 - 124)"
    by simp
  have "u_compute_rdp_randomized_response (Fin (997 / 1000)) (Fin 124) = Inl OverflowError"
    using b by (intro rr_overflow) simp_all
  then show ?thesis
    by (simp add: compute_rdp_randomized_response_def over_orders_def rr_edge_inf)
qed





section \<open>The fractional loop\<close>

lemma frac_body_stop:
  "frac_body ln_Phi q sigma alpha z0 i a0 a1 = Inr (b0, b1, stop) \<Longrightarrow>
     stop = frac_converged_at ln_Phi q sigma alpha z0 i"
  unfolding frac_body_def frac_converged_at_def ebind_def
  by (cases "frac_terms ln_Phi q sigma alpha z0 i") (auto split: sum.splits prod.splits)




lemma frac_run_raise:
  "frac_body ln_Phi q sigma alpha z0 i a0 a1 = Inl e \<Longrightarrow>
     frac_run ln_Phi q sigma alpha z0 (Suc n) i a0 a1 = Inl e"
  by (simp add: ebind_def)

lemma frac_run_next:
  "frac_body ln_Phi q sigma alpha z0 i a0 a1 = Inr (b0, b1, stop) \<Longrightarrow>
     frac_run ln_Phi q sigma alpha z0 (Suc n) i a0 a1
       = frac_run ln_Phi q sigma alpha z0 n (Suc i) b0 b1"
  by (simp add: ebind_def)







lemma frac_loop_returns_converged:
  assumes "frac_loop ln_Phi q sigma alpha z0 i a0 a1 = Some (Inr acc)"
  shows "\<exists>m\<ge>i. frac_converged_at ln_Phi q sigma alpha z0 m"
proof -
  have "(\<exists>acc'. (Inr acc :: py_error + pyfloat \<times> pyfloat) = Inr acc') \<longrightarrow>
      (\<exists>m\<ge>i. frac_converged_at ln_Phi q sigma alpha z0 m)"
  proof (rule frac_loop.raw_induct[where P = "\<lambda>ln_Phi q sigma alpha z0 i a0 a1 y.
      (\<exists>acc. y = Inr acc) \<longrightarrow> (\<exists>m\<ge>i. frac_converged_at ln_Phi q sigma alpha z0 m)", OF _ assms])
    fix loop :: "(real \<Rightarrow> real) \<Rightarrow> pyfloat \<Rightarrow> pyfloat \<Rightarrow> pyfloat \<Rightarrow> pyfloat \<Rightarrow> nat \<Rightarrow> pyfloat \<Rightarrow> pyfloat
        \<Rightarrow> (py_error + pyfloat \<times> pyfloat) option"
      and ln_Phi q sigma alpha z0 i a0 a1 y
    assume ih: "\<And>ln_Phi q sigma alpha z0 i a0 a1 y. loop ln_Phi q sigma alpha z0 i a0 a1 = Some y \<Longrightarrow>
        (\<exists>acc. y = Inr acc) \<longrightarrow> (\<exists>m\<ge>i. frac_converged_at ln_Phi q sigma alpha z0 m)"
      and step: "(case frac_body ln_Phi q sigma alpha z0 i a0 a1 of
          Inl e \<Rightarrow> Some (Inl e)
        | Inr (b0, b1, stop) \<Rightarrow>
            if stop then Some (Inr (b0, b1))
            else loop ln_Phi q sigma alpha z0 (Suc i) b0 b1) = Some y"
    show "(\<exists>acc. y = Inr acc) \<longrightarrow> (\<exists>m\<ge>i. frac_converged_at ln_Phi q sigma alpha z0 m)"
    proof (cases "frac_body ln_Phi q sigma alpha z0 i a0 a1")
      case (Inl e)
      have "y = Inl e" using step unfolding Inl by simp
      then show ?thesis by simp
    next
      case (Inr r)
      obtain b0 b1 stop where r: "r = (b0, b1, stop)" by (cases r)
      have b: "frac_body ln_Phi q sigma alpha z0 i a0 a1 = Inr (b0, b1, stop)"
        using Inr r by simp
      then have s: "stop = frac_converged_at ln_Phi q sigma alpha z0 i"
        by (rule frac_body_stop)
      show ?thesis
      proof (cases stop)
        case True
        then have "frac_converged_at ln_Phi q sigma alpha z0 i" using s by simp
        then have "\<exists>m\<ge>i. frac_converged_at ln_Phi q sigma alpha z0 m"
          by (intro exI[of _ i]) simp
        then show ?thesis by (rule impI)
      next
        case False
        have "loop ln_Phi q sigma alpha z0 (Suc i) b0 b1 = Some y"
          using step False unfolding b by simp
        then have h: "(\<exists>acc. y = Inr acc) \<longrightarrow>
            (\<exists>m\<ge>Suc i. frac_converged_at ln_Phi q sigma alpha z0 m)"
          by (rule ih)
        show ?thesis
        proof
          assume "\<exists>acc. y = Inr acc"
          with h obtain m where "Suc i \<le> m" "frac_converged_at ln_Phi q sigma alpha z0 m"
            by blast
          then show "\<exists>m\<ge>i. frac_converged_at ln_Phi q sigma alpha z0 m"
            by (intro exI[of _ m]) simp
        qed
      qed
    qed
  qed
  then show ?thesis by simp
qed

lemma frac_loop_raises_run:
  assumes "frac_loop ln_Phi q sigma alpha z0 i a0 a1 = Some (Inl e)"
  shows "\<exists>n. frac_run ln_Phi q sigma alpha z0 (Suc n) i a0 a1 = Inl e"
proof -
  have "\<forall>e'. (Inl e :: py_error + pyfloat \<times> pyfloat) = Inl e' \<longrightarrow>
      (\<exists>n. frac_run ln_Phi q sigma alpha z0 (Suc n) i a0 a1 = Inl e')"
  proof (rule frac_loop.raw_induct[where P = "\<lambda>ln_Phi q sigma alpha z0 i a0 a1 y.
      \<forall>e'. y = Inl e' \<longrightarrow> (\<exists>n. frac_run ln_Phi q sigma alpha z0 (Suc n) i a0 a1 = Inl e')",
      OF _ assms])
    fix loop :: "(real \<Rightarrow> real) \<Rightarrow> pyfloat \<Rightarrow> pyfloat \<Rightarrow> pyfloat \<Rightarrow> pyfloat \<Rightarrow> nat \<Rightarrow> pyfloat \<Rightarrow> pyfloat
        \<Rightarrow> (py_error + pyfloat \<times> pyfloat) option"
      and ln_Phi q sigma alpha z0 i a0 a1 y
    assume ih: "\<And>ln_Phi q sigma alpha z0 i a0 a1 y. loop ln_Phi q sigma alpha z0 i a0 a1 = Some y \<Longrightarrow>
        \<forall>e'. y = Inl e' \<longrightarrow> (\<exists>n. frac_run ln_Phi q sigma alpha z0 (Suc n) i a0 a1 = Inl e')"
      and step: "(case frac_body ln_Phi q sigma alpha z0 i a0 a1 of
          Inl e \<Rightarrow> Some (Inl e)
        | Inr (b0, b1, stop) \<Rightarrow>
            if stop then Some (Inr (b0, b1))
            else loop ln_Phi q sigma alpha z0 (Suc i) b0 b1) = Some y"
    show "\<forall>e'. y = Inl e' \<longrightarrow> (\<exists>n. frac_run ln_Phi q sigma alpha z0 (Suc n) i a0 a1 = Inl e')"
    proof (cases "frac_body ln_Phi q sigma alpha z0 i a0 a1")
      case (Inl e0)
      have y: "y = Inl e0" using step unfolding Inl by simp
      have "frac_run ln_Phi q sigma alpha z0 (Suc 0) i a0 a1 = Inl e0"
        using Inl by (rule frac_run_raise)
      then have "\<exists>n. frac_run ln_Phi q sigma alpha z0 (Suc n) i a0 a1 = Inl e0" by (rule exI)
      then show ?thesis unfolding y by simp
    next
      case (Inr r)
      obtain b0 b1 stop where r: "r = (b0, b1, stop)" by (cases r)
      have b: "frac_body ln_Phi q sigma alpha z0 i a0 a1 = Inr (b0, b1, stop)"
        using Inr r by simp
      show ?thesis
      proof (cases stop)
        case True
        then have "y = Inr (b0, b1)" using step unfolding b by simp
        then show ?thesis by simp
      next
        case False
        have "loop ln_Phi q sigma alpha z0 (Suc i) b0 b1 = Some y"
          using step False unfolding b by simp
        then have h: "\<forall>e'. y = Inl e' \<longrightarrow>
            (\<exists>n. frac_run ln_Phi q sigma alpha z0 (Suc n) (Suc i) b0 b1 = Inl e')"
          by (rule ih)
        show ?thesis
        proof (intro allI impI)
          fix e' assume "y = Inl e'"
          with h obtain n where n: "frac_run ln_Phi q sigma alpha z0 (Suc n) (Suc i) b0 b1 = Inl e'"
            by blast
          have "frac_run ln_Phi q sigma alpha z0 (Suc (Suc n)) i a0 a1
              = frac_run ln_Phi q sigma alpha z0 (Suc n) (Suc i) b0 b1"
            using b by (rule frac_run_next)
          with n have "frac_run ln_Phi q sigma alpha z0 (Suc (Suc n)) i a0 a1 = Inl e'" by simp
          then show "\<exists>n. frac_run ln_Phi q sigma alpha z0 (Suc n) i a0 a1 = Inl e'" by (rule exI)
        qed
      qed
    qed
  qed
  then show ?thesis by simp
qed

text \<open>
  The other direction: when the test holds at no index and no round raises, the
  loop has no result.
\<close>

lemma frac_loop_diverges:
  assumes "\<forall>m. \<not> frac_converged_at ln_Phi q sigma alpha z0 m"
    and "\<forall>n. \<exists>acc. frac_run ln_Phi q sigma alpha z0 n 0 a0 a1 = Inr acc"
  shows "frac_loop ln_Phi q sigma alpha z0 0 a0 a1 = None"
proof (cases "frac_loop ln_Phi q sigma alpha z0 0 a0 a1")
  case None
  then show ?thesis .
next
  case (Some y)
  show ?thesis
  proof (cases y)
    case (Inl e)
    with Some have "frac_loop ln_Phi q sigma alpha z0 0 a0 a1 = Some (Inl e)" by simp
    then obtain n where "frac_run ln_Phi q sigma alpha z0 (Suc n) 0 a0 a1 = Inl e"
      using frac_loop_raises_run by blast
    with assms(2) show ?thesis by (metis sum.distinct(1))
  next
    case (Inr acc)
    with Some have "frac_loop ln_Phi q sigma alpha z0 0 a0 a1 = Some (Inr acc)" by simp
    then have "\<exists>m\<ge>0. frac_converged_at ln_Phi q sigma alpha z0 m"
      by (rule frac_loop_returns_converged)
    with assms(1) show ?thesis by simp
  qed
qed



































end
